theory Spec2Isabelle
  imports Main "HOL-Library.Word"
begin

section \<open>Go values used by package client\<close>

text \<open>
  Go's \<^verbatim>\<open>error\<close> values of the program: \<^verbatim>\<open>fmt.Errorf(msg)\<close> carries its message,
  \<^verbatim>\<open>net.ParseMAC\<close> fails with an \<^verbatim>\<open>*net.AddrError{Err, Addr}\<close>.
\<close>

datatype error = Errorf string | AddrError string string

text \<open>
  A Go method returning \<^verbatim>\<open>([]string, error)\<close> is a pair: the slice (the nil slice and
  the empty slice are both \<open>[]\<close>) and the error, \<open>None\<close> for Go's nil error.
\<close>

type_synonym result = "string list \<times> error option"

text \<open>
  \<^verbatim>\<open>uint\<close> and \<^verbatim>\<open>uint64\<close> are 64-bit words (vfkit builds for 64-bit macOS only).
  \<^verbatim>\<open>strconv.FormatUint(x, 10)\<close> and \<^verbatim>\<open>fmt.Sprintf("%d", x)\<close> of an unsigned value
  both give its decimal digits, most significant first, with no sign and no padding.
\<close>

type_synonym uint = "64 word"

definition digits :: string where
  "digits = ''0123456789''"

function FormatUint :: "nat \<Rightarrow> string" where
  "FormatUint n = (if n < 10 then [digits ! n] else FormatUint (n div 10) @ [digits ! (n mod 10)])"
  by pat_completeness auto
termination
  by (relation "measure id") auto

declare FormatUint.simps [simp del]

text \<open>Reading a string of decimal digits back, to say what "decimal" means.\<close>

definition ParseUint :: "string \<Rightarrow> nat" where
  "ParseUint s = foldl (\<lambda>a c. 10 * a + (of_char c - 48)) 0 s"

text \<open>\<^verbatim>\<open>strings.Join(elems, ",")\<close>.\<close>

fun Join_comma :: "string list \<Rightarrow> string" where
  "Join_comma [] = []"
| "Join_comma [x] = x"
| "Join_comma (x # y # ys) = x @ '','' @ Join_comma (y # ys)"

text \<open>
  \<^verbatim>\<open>net.HardwareAddr\<close> is a byte slice; its \<^verbatim>\<open>String\<close> method, which \<^verbatim>\<open>%s\<close> calls,
  prints each byte as two lower-case hexadecimal digits, the bytes separated by colons.
\<close>

type_synonym HardwareAddr = "8 word list"

definition hexDigit :: string where
  "hexDigit = ''0123456789abcdef''"

fun HardwareAddr_bytes :: "HardwareAddr \<Rightarrow> string" where
  "HardwareAddr_bytes [] = []"
| "HardwareAddr_bytes [b] = [hexDigit ! unat (drop_bit 4 b), hexDigit ! unat (and b 15)]"
| "HardwareAddr_bytes (b # c # cs) =
     [hexDigit ! unat (drop_bit 4 b), hexDigit ! unat (and b 15)] @ '':'' @ HardwareAddr_bytes (c # cs)"

definition HardwareAddr_String :: "HardwareAddr \<Rightarrow> string" where
  "HardwareAddr_String a = (if length a = 0 then [] else HardwareAddr_bytes a)"

section \<open>The component model (pkg/client/cmdline.go)\<close>

text \<open>
  \<^verbatim>\<open>VMComponent\<close> is the interface with the one method \<^verbatim>\<open>ToCmdLine\<close>; \<^verbatim>\<open>Bootloader\<close> and
  \<^verbatim>\<open>VirtioDevice\<close> are declared as the same interface, so any implementer can stand in
  either place. The implementers of the file are the constructors, each with the
  fields of its struct in declaration order.
\<close>

datatype VMComponent =
    linuxBootloader (vmlinuzPath: string) (kernelCmdLine: string) (initrdPath: string)
  | efiBootloader (efiVariableStorePath: string) (createVariableStore: bool)
  | VirtioVsock (Port: uint) (SocketURL: string) (Listen: bool)
  | virtioBlk (imagePath: string)
  | virtioRNG
  | virtioNet (nat_net: bool) (macAddress: HardwareAddr)
  | virtioSerial (logFile: string)
  | virtioFs (sharedDir: string) (mountTag: string)
  | timeSync (vsockPort: uint)

record VirtualMachine =
  vcpus :: uint
  memoryBytes :: "64 word"
  bootloader :: "VMComponent option"
  devices :: "VMComponent list"

definition NewVirtualMachine :: "uint \<Rightarrow> 64 word \<Rightarrow> VMComponent option \<Rightarrow> VirtualMachine" where
  "NewVirtualMachine c m b = \<lparr>vcpus = c, memoryBytes = m, bootloader = b, devices = []\<rparr>"

text \<open>\<^verbatim>\<open>AddDevice\<close> writes the receiver: the device goes to the end of the slice.\<close>

definition AddDevice :: "VMComponent \<Rightarrow> VirtualMachine \<Rightarrow> error option \<times> VirtualMachine" where
  "AddDevice dev vm = (None, vm\<lparr>devices := devices vm @ [dev]\<rparr>)"

subsection \<open>The constructors\<close>

definition NewLinuxBootloader :: "string \<Rightarrow> string \<Rightarrow> string \<Rightarrow> VMComponent" where
  "NewLinuxBootloader k c i = linuxBootloader k c i"

definition NewEFIBootloader :: "string \<Rightarrow> bool \<Rightarrow> VMComponent" where
  "NewEFIBootloader p create = efiBootloader p create"

definition VirtioVsockNew :: "uint \<Rightarrow> string \<Rightarrow> bool \<Rightarrow> VMComponent option \<times> error option" where
  "VirtioVsockNew port socketURL listen = (Some (VirtioVsock port socketURL listen), None)"

definition VirtioFsNew :: "string \<Rightarrow> string \<Rightarrow> VMComponent option \<times> error option" where
  "VirtioFsNew dir tag = (Some (virtioFs dir tag), None)"

definition TimeSyncNew :: "uint \<Rightarrow> VMComponent option \<times> error option" where
  "TimeSyncNew port = (Some (timeSync port), None)"

text \<open>
  \<^verbatim>\<open>VirtioNetNew\<close> calls \<^verbatim>\<open>net.ParseMAC\<close> of Go's standard library, a parameter here:
  it returns the address and Go's nil error, or no address and an error.
\<close>

definition VirtioNetNew ::
  "(string \<Rightarrow> HardwareAddr \<times> error option) \<Rightarrow> string \<Rightarrow> VMComponent option \<times> error option" where
  "VirtioNetNew ParseMAC mac =
     (if mac \<noteq> [] then
        (case ParseMAC mac of
           (hwAddr, Some err) \<Rightarrow> (None, Some err)
         | (hwAddr, None) \<Rightarrow> (Some (virtioNet True hwAddr), None))
      else (Some (virtioNet True []), None))"

subsection \<open>Rendering one component\<close>

fun ToCmdLine :: "VMComponent \<Rightarrow> result" where
  "ToCmdLine (linuxBootloader vmlinuz cmdline initrd) =
     (if vmlinuz = [] then ([], Some (Errorf ''Missing kernel path''))
      else if initrd = [] then ([], Some (Errorf ''Missing initrd path''))
      else if cmdline = [] then ([], Some (Errorf ''Missing kernel command line''))
      else ([''--kernel'', vmlinuz, ''--initrd'', initrd, ''--kernel-cmdline'', cmdline], None))"
| "ToCmdLine (efiBootloader store create) =
     (if store = [] then ([], Some (Errorf ''Missing EFI store path''))
      else ([''--bootloader'',
             ''efi'' @ ('',variable-store='' @ store) @ (if create then '',create'' else [])], None))"
| "ToCmdLine (VirtioVsock port url listen) =
     (if port = 0 \<or> url = [] then
        ([], Some (Errorf ''virtio-vsock needs both a port and a socket URL''))
      else
        (let listenStr = (if listen then ''listen'' else ''connect'')
         in ([''--device'',
              ''virtio-vsock,port='' @ FormatUint (unat port) @ '',socketURL='' @ url @ '','' @ listenStr],
             None)))"
| "ToCmdLine (virtioBlk img) =
     (if img = [] then ([], Some (Errorf ''virtio-blk needs the path to a disk image''))
      else ([''--device'', ''virtio-blk,path='' @ img], None))"
| "ToCmdLine virtioRNG = ([''--device'', ''virtio-rng''], None)"
| "ToCmdLine (virtioNet n mac) =
     (if \<not> n then ([], Some (Errorf ''virtio-net only support 'nat' networking''))
      else ([''--device'',
             ''virtio-net'' @ '',nat'' @
               (if length mac \<noteq> 0 then '',mac='' @ HardwareAddr_String mac else [])], None))"
| "ToCmdLine (virtioSerial logf) =
     (if logf = [] then ([], Some (Errorf ''virtio-serial needs the path to the log file''))
      else ([''--device'', ''virtio-serial,logFilePath='' @ logf], None))"
| "ToCmdLine (virtioFs dir tag) =
     (if dir = [] then ([], Some (Errorf ''virtio-fs needs the path to the directory to share''))
      else if tag \<noteq> [] then ([''--device'', ''virtio-fs,sharedDir='' @ dir @ '',mountTag='' @ tag], None)
      else ([''--device'', ''virtio-fs,sharedDir='' @ dir], None))"
| "ToCmdLine (timeSync port) =
     (let args = (if port \<noteq> 0 then [''vsockPort='' @ FormatUint (unat port)] else [])
      in ([''--timesync'', Join_comma args], None))"

subsection \<open>Rendering the virtual machine\<close>

text \<open>
  The loop \<^verbatim>\<open>for _, dev := range vm.devices\<close> with the local \<^verbatim>\<open>args\<close> as accumulator:
  the first device that fails ends the call with \<^verbatim>\<open>nil, err\<close>.
\<close>

fun range_devices :: "VMComponent list \<Rightarrow> string list \<Rightarrow> result" where
  "range_devices [] args = (args, None)"
| "range_devices (dev # rest) args =
     (case ToCmdLine dev of
        (devArgs, Some err) \<Rightarrow> ([], Some err)
      | (devArgs, None) \<Rightarrow> range_devices rest (args @ devArgs))"

definition VirtualMachine_ToCmdLine :: "VirtualMachine \<Rightarrow> result" where
  "VirtualMachine_ToCmdLine vm =
     (let args = [];
          args = (if vcpus vm \<noteq> 0 then args @ [''--cpus'', FormatUint (unat (vcpus vm))] else args);
          args = (if memoryBytes vm \<noteq> 0
                  then args @ [''--memory'', FormatUint (unat (memoryBytes vm))] else args)
      in case bootloader vm of
           None \<Rightarrow> ([], Some (Errorf ''missing bootloader configuration''))
         | Some b \<Rightarrow>
             (case ToCmdLine b of
                (bootloaderArgs, Some err) \<Rightarrow> ([], Some err)
              | (bootloaderArgs, None) \<Rightarrow> range_devices (devices vm) (args @ bootloaderArgs)))"

subsection \<open>The call as a state transformer\<close>

text \<open>
  \<^verbatim>\<open>ToCmdLine\<close> has a pointer receiver, so it could write the machine as \<^verbatim>\<open>AddDevice\<close>
  does. The frame of a call holds the receiver and the local \<^verbatim>\<open>args\<close>; every statement
  of the body maps a frame to a frame, and the call returns its result with the
  receiver as the body left it.
\<close>

record frame =
  f_vm :: VirtualMachine
  f_args :: "string list"

fun range_devices_frame :: "VMComponent list \<Rightarrow> frame \<Rightarrow> result \<times> frame" where
  "range_devices_frame [] s = ((f_args s, None), s)"
| "range_devices_frame (dev # rest) s =
     (case ToCmdLine dev of
        (devArgs, Some err) \<Rightarrow> (([], Some err), s)
      | (devArgs, None) \<Rightarrow> range_devices_frame rest (s\<lparr>f_args := f_args s @ devArgs\<rparr>))"

definition VirtualMachine_ToCmdLine_call :: "VirtualMachine \<Rightarrow> result \<times> VirtualMachine" where
  "VirtualMachine_ToCmdLine_call vm =
     (let s = \<lparr>f_vm = vm, f_args = []\<rparr>;
          s = (if vcpus (f_vm s) \<noteq> 0
               then s\<lparr>f_args := f_args s @ [''--cpus'', FormatUint (unat (vcpus (f_vm s)))]\<rparr> else s);
          s = (if memoryBytes (f_vm s) \<noteq> 0
               then s\<lparr>f_args := f_args s @ [''--memory'', FormatUint (unat (memoryBytes (f_vm s)))]\<rparr>
               else s)
      in case bootloader (f_vm s) of
           None \<Rightarrow> (([], Some (Errorf ''missing bootloader configuration'')), f_vm s)
         | Some b \<Rightarrow>
             (case ToCmdLine b of
                (bootloaderArgs, Some err) \<Rightarrow> (([], Some err), f_vm s)
              | (bootloaderArgs, None) \<Rightarrow>
                  (case range_devices_frame (devices (f_vm s)) (s\<lparr>f_args := f_args s @ bootloaderArgs\<rparr>) of
                     (r, s') \<Rightarrow> (r, f_vm s'))))"

subsection \<open>The token formats of the specification\<close>

text \<open>
  The specification's words for one rendered component: a flag name, then one value
  that joins with commas the variant tag and the fields in their fixed order, a
  boolean-style field as a bare word. These two functions follow the specification,
  not the code; the theorems compare them with \<open>ToCmdLine\<close>. The Linux bootloader
  and the time synchronisation have no such value in the specification: their tags
  are the names the specification gives the variants, and no theorem uses them.
\<close>

fun spec_tag :: "VMComponent \<Rightarrow> string" where
  "spec_tag (linuxBootloader k c i) = ''linux''"
| "spec_tag (efiBootloader p create) = ''efi''"
| "spec_tag (VirtioVsock port url listen) = ''virtio-vsock''"
| "spec_tag (virtioBlk img) = ''virtio-blk''"
| "spec_tag virtioRNG = ''virtio-rng''"
| "spec_tag (virtioNet n mac) = ''virtio-net''"
| "spec_tag (virtioSerial logf) = ''virtio-serial''"
| "spec_tag (virtioFs dir tag) = ''virtio-fs''"
| "spec_tag (timeSync port) = ''timesync''"

fun spec_fields :: "VMComponent \<Rightarrow> string list" where
  "spec_fields (linuxBootloader k c i) = []"
| "spec_fields (efiBootloader p create) =
     [''variable-store='' @ p] @ (if create then [''create''] else [])"
| "spec_fields (VirtioVsock port url listen) =
     [''port='' @ FormatUint (unat port), ''socketURL='' @ url,
      if listen then ''listen'' else ''connect'']"
| "spec_fields (virtioBlk img) = [''path='' @ img]"
| "spec_fields virtioRNG = []"
| "spec_fields (virtioNet n mac) =
     (if n then [''nat''] else []) @ (if mac = [] then [] else [''mac='' @ HardwareAddr_String mac])"
| "spec_fields (virtioSerial logf) = [''logFilePath='' @ logf]"
| "spec_fields (virtioFs dir tag) =
     [''sharedDir='' @ dir] @ (if tag = [] then [] else [''mountTag='' @ tag])"
| "spec_fields (timeSync port) = (if port = 0 then [] else [''vsockPort='' @ FormatUint (unat port)])"

text \<open>The six device variants of the data model.\<close>

fun is_device :: "VMComponent \<Rightarrow> bool" where
  "is_device (linuxBootloader k c i) = False"
| "is_device (efiBootloader p create) = False"
| "is_device (timeSync port) = False"
| "is_device d = True"

fun is_bootloader :: "VMComponent \<Rightarrow> bool" where
  "is_bootloader (linuxBootloader k c i) = True"
| "is_bootloader (efiBootloader p create) = True"
| "is_bootloader d = False"

section \<open>Go's net.ParseMAC\<close>

text \<open>
  \<^verbatim>\<open>net.ParseMAC\<close> with its helpers \<^verbatim>\<open>xtoi\<close> and \<^verbatim>\<open>xtoi2\<close> belongs to Go's standard
  library (net/mac.go, net/parse.go), not to this repository. The theorems about
  \<open>VirtioNetNew\<close> take the parser as a parameter; this transcription of the library
  function is the parser they are run with.
\<close>

definition big :: nat where
  "big = 0xFFFFFF"

definition hexval :: "char \<Rightarrow> nat option" where
  "hexval c =
     (let b = of_char c :: nat in
      if 48 \<le> b \<and> b \<le> 57 then Some (b - 48)
      else if 97 \<le> b \<and> b \<le> 102 then Some (b - 97 + 10)
      else if 65 \<le> b \<and> b \<le> 70 then Some (b - 65 + 10)
      else None)"

fun xtoi_loop :: "string \<Rightarrow> nat \<Rightarrow> nat \<Rightarrow> nat \<times> nat \<times> bool" where
  "xtoi_loop [] n i = (if i = 0 then (0, i, False) else (n, i, True))"
| "xtoi_loop (c # cs) n i =
     (case hexval c of
        None \<Rightarrow> (if i = 0 then (0, i, False) else (n, i, True))
      | Some d \<Rightarrow>
          (let n = n * 16 + d
           in if n \<ge> big then (0, i, False) else xtoi_loop cs n (Suc i)))"

definition xtoi :: "string \<Rightarrow> nat \<times> nat \<times> bool" where
  "xtoi s = xtoi_loop s 0 0"

text \<open>The callers pass at least two characters, so \<^verbatim>\<open>s[:2]\<close> is in range.\<close>

definition xtoi2 :: "string \<Rightarrow> char \<Rightarrow> 8 word \<times> bool" where
  "xtoi2 s e =
     (if length s > 2 \<and> s ! 2 \<noteq> e then (0, False)
      else (case xtoi (take 2 s) of (n, ei, ok) \<Rightarrow> (of_nat n, ok \<and> ei = 2)))"

text \<open>
  The two loops of \<^verbatim>\<open>ParseMAC\<close>, on the rest of the string from position \<^verbatim>\<open>x\<close> and the
  number of bytes still to read; \<open>None\<close> is the jump to the error label.
\<close>

fun colon_groups :: "nat \<Rightarrow> string \<Rightarrow> char \<Rightarrow> HardwareAddr option" where
  "colon_groups 0 t e = Some []"
| "colon_groups (Suc k) t e =
     (case xtoi2 t e of
        (b, False) \<Rightarrow> None
      | (b, True) \<Rightarrow> map_option ((#) b) (colon_groups k (drop 3 t) e))"

fun dot_groups :: "nat \<Rightarrow> string \<Rightarrow> char \<Rightarrow> HardwareAddr option" where
  "dot_groups 0 t e = Some []"
| "dot_groups (Suc k) t e =
     (case xtoi2 (take 2 t) (CHR 0x00) of
        (b, False) \<Rightarrow> None
      | (b, True) \<Rightarrow>
          (case xtoi2 (drop 2 t) e of
             (c, False) \<Rightarrow> None
           | (c, True) \<Rightarrow> map_option (\<lambda>hw. b # c # hw) (dot_groups k (drop 5 t) e)))"

definition ParseMAC :: "string \<Rightarrow> HardwareAddr \<times> error option" where
  "ParseMAC s =
     (let fail = ([], Some (AddrError ''invalid MAC address'' s)) in
      if length s < 14 then fail
      else if s ! 2 = CHR '':'' \<or> s ! 2 = CHR ''-'' then
        (if (length s + 1) mod 3 \<noteq> 0 then fail
         else
           (let n = (length s + 1) div 3 in
            if n \<noteq> 6 \<and> n \<noteq> 8 \<and> n \<noteq> 20 then fail
            else (case colon_groups n s (s ! 2) of None \<Rightarrow> fail | Some hw \<Rightarrow> (hw, None))))
      else if s ! 4 = CHR ''.'' then
        (if (length s + 1) mod 5 \<noteq> 0 then fail
         else
           (let n = 2 * (length s + 1) div 5 in
            if n \<noteq> 6 \<and> n \<noteq> 8 \<and> n \<noteq> 20 then fail
            else (case dot_groups (n div 2) s (s ! 4) of None \<Rightarrow> fail | Some hw \<Rightarrow> (hw, None))))
      else fail)"

section \<open>ListValue (pkg/cmdline)\<close>

text \<open>
  Modelled from the spec: the file that defines \<^verbatim>\<open>stringSliceValue\<close> (its methods
  \<^verbatim>\<open>Set\<close>, \<^verbatim>\<open>Replace\<close>, \<^verbatim>\<open>GetSlice\<close>, \<^verbatim>\<open>String\<close> and the splitting they use) is not among
  the sources; only its tests (string_slice_test.go) and its use in \<^verbatim>\<open>Options\<close> are.
  The definitions of this section follow the specification's ListValue, sections 3
  and 4.3, and are run against the tests.
\<close>

text \<open>
  Modelled from the spec: splitting step 1. The scan goes left to right with the
  inside-quotes state \<open>q\<close> and the element read so far; a double quote toggles the
  state and stays in the element, a comma outside quotes ends the element, a comma
  inside quotes and any other character go to the element. An unterminated quote
  stays inside quotes to the end of the input.
\<close>

fun scan :: "bool \<Rightarrow> string \<Rightarrow> string \<Rightarrow> string list" where
  "scan q cur [] = [cur]"
| "scan q cur (c # cs) =
     (if c = CHR 0x22 then scan (\<not> q) (cur @ [c]) cs
      else if c = CHR '','' \<and> \<not> q then cur # scan False [] cs
      else scan q (cur @ [c]) cs)"

text \<open>
  Two observers of one element, used to state what the scan achieves: whether the
  element, read from the state \<open>q\<close>, has a comma outside quotes, and the state after
  reading it.
\<close>

fun outside_comma :: "bool \<Rightarrow> string \<Rightarrow> bool" where
  "outside_comma q [] = False"
| "outside_comma q (c # cs) =
     (if c = CHR 0x22 then outside_comma (\<not> q) cs
      else if c = CHR '','' \<and> \<not> q then True
      else outside_comma q cs)"

fun in_quotes :: "bool \<Rightarrow> string \<Rightarrow> bool" where
  "in_quotes q [] = q"
| "in_quotes q (c # cs) = in_quotes (if c = CHR 0x22 then \<not> q else q) cs"

text \<open>
  Modelled from the spec: splitting step 2. An element wholly wrapped in a single pair
  of double quotes (it starts with a quote, ends with another one, and has no quote
  between them) loses the two; every other element stays as it is.
\<close>

definition unwrap :: "string \<Rightarrow> string" where
  "unwrap e =
     (case e of
        [] \<Rightarrow> e
      | c # rest \<Rightarrow>
          if c = CHR 0x22 \<and> rest \<noteq> [] \<and> last rest = CHR 0x22 \<and> CHR 0x22 \<notin> set (butlast rest)
          then butlast rest else e)"

text \<open>Modelled from the spec: splitting steps 1 to 3; the empty input has no element.\<close>

definition readAsCSV :: "string \<Rightarrow> string list" where
  "readAsCSV raw = (if raw = [] then [] else map unwrap (scan False [] raw))"

text \<open>
  Modelled from the spec: the ListValue. Section 3 says both that \<^verbatim>\<open>Set\<close> appends to
  the existing sequence and that, once any \<^verbatim>\<open>Set\<close> has executed, the default installed
  by \<^verbatim>\<open>Replace\<close> is fully discarded. The tests decide: \<^verbatim>\<open>TestSSWithDefault\<close> installs
  \<^verbatim>\<open>["default","values"]\<close> with \<^verbatim>\<open>Replace\<close>, parses one occurrence of the flag and
  expects the parsed values alone; \<^verbatim>\<open>TestSSCalledTwice\<close> expects the second occurrence
  appended to the first. So the value records whether a \<^verbatim>\<open>Set\<close> has run: the first
  \<^verbatim>\<open>Set\<close> installs its batch, every later one appends; \<^verbatim>\<open>Replace\<close> installs its
  argument and leaves that record alone.
\<close>

record stringSliceValue =
  slice_value :: "string list"
  changed :: bool

definition zero_value :: stringSliceValue where
  "zero_value = \<lparr>slice_value = [], changed = False\<rparr>"

definition Set :: "string \<Rightarrow> stringSliceValue \<Rightarrow> stringSliceValue" where
  "Set val s =
     (let rv = readAsCSV val
      in \<lparr>slice_value = (if \<not> changed s then rv else slice_value s @ rv), changed = True\<rparr>)"

definition Replace :: "string list \<Rightarrow> stringSliceValue \<Rightarrow> stringSliceValue" where
  "Replace val s = s\<lparr>slice_value := val\<rparr>"

definition GetSlice :: "stringSliceValue \<Rightarrow> string list" where
  "GetSlice s = slice_value s"



text \<open>
  The test harness: \<^verbatim>\<open>f.Parse\<close> calls \<^verbatim>\<open>Set\<close> once for each occurrence of the flag, in
  the order of the command line.
\<close>

fun Parse :: "string list \<Rightarrow> stringSliceValue \<Rightarrow> stringSliceValue" where
  "Parse [] s = s"
| "Parse (a # as) s = Parse as (Set a s)"

section \<open>The encoder: results\<close>

subsection \<open>Decimal rendering\<close>

lemma digits_nth: "(d::nat) < 10 \<Longrightarrow> of_char (digits ! d) = 48 + d"
proof -
  assume "d < 10"
  then have "d \<in> {0, 1, 2, 3, 4, 5, 6, 7, 8, 9}" by auto
  then show ?thesis by (auto simp: digits_def)
qed

lemma ParseUint_FormatUint: "ParseUint (FormatUint n) = n"
proof (induction n rule: FormatUint.induct)
  case (1 n)
  show ?case
  proof (cases "n < 10")
    case True
    then show ?thesis
      by (subst FormatUint.simps) (simp add: ParseUint_def digits_nth)
  next
    case False
    have d: "n mod 10 < 10" by simp
    have "ParseUint (FormatUint n) = 10 * ParseUint (FormatUint (n div 10)) + n mod 10"
      using False by (subst FormatUint.simps) (simp add: ParseUint_def digits_nth [OF d])
    then show ?thesis using 1 False by simp
  qed
qed

text \<open>The rendering is a non-empty string of decimal digits, with no leading zero.\<close>

lemma FormatUint_not_Nil: "FormatUint n \<noteq> []"
  by (subst FormatUint.simps) simp

lemma digits_mem: "(d::nat) < 10 \<Longrightarrow> digits ! d \<in> set digits"
  by (rule nth_mem) (simp add: digits_def)

lemma FormatUint_digits: "set (FormatUint n) \<subseteq> set digits"
proof (induction n rule: FormatUint.induct)
  case (1 n)
  show ?case
  proof (cases "n < 10")
    case True
    then show ?thesis by (subst FormatUint.simps) (simp add: digits_mem)
  next
    case False
    have d: "n mod 10 < 10" by simp
    show ?thesis
      using False 1 digits_mem [OF d] by (subst FormatUint.simps) simp
  qed
qed

lemma digits_nth_zero: "(d::nat) < 10 \<Longrightarrow> (digits ! d = CHR ''0'') = (d = 0)"
proof -
  assume d: "d < 10"
  have "of_char (digits ! d) = (48::nat) + d" using d by (rule digits_nth)
  moreover have "of_char (CHR ''0'') = (48::nat)" by simp
  ultimately show ?thesis by (metis add_cancel_right_right digits_def nth_Cons_0)
qed

lemma FormatUint_leading_zero: "(hd (FormatUint n) = CHR ''0'') = (n = 0)"
proof (induction n rule: FormatUint.induct)
  case (1 n)
  show ?case
  proof (cases "n < 10")
    case True
    then show ?thesis by (subst FormatUint.simps) (simp add: digits_nth_zero)
  next
    case False
    then have "n div 10 \<noteq> 0" by simp
    then have "hd (FormatUint (n div 10)) \<noteq> CHR ''0''" using 1 False by simp
    then show ?thesis
      using False by (subst FormatUint.simps) (simp add: FormatUint_not_Nil)
  qed
qed

subsection \<open>Failing calls return no tokens\<close>

lemma ToCmdLine_error_nil: "ToCmdLine c = (ts, Some e) \<Longrightarrow> ts = []"
  by (cases c) (auto split: if_splits simp: Let_def)

lemma range_devices_error_nil: "range_devices ds args = (ts, Some e) \<Longrightarrow> ts = []"
proof (induction ds arbitrary: args)
  case Nil
  then show ?case by simp
next
  case (Cons d ds)
  then show ?case
    by (cases "ToCmdLine d") (auto split: option.splits)
qed

subsection \<open>The loop over the devices\<close>

lemma range_devices_success:
  "range_devices ds args = (ts, None) \<longleftrightarrow>
     (\<exists>dts. map ToCmdLine ds = map (\<lambda>t. (t, None)) dts \<and> ts = args @ concat dts)"
proof (induction ds arbitrary: args)
  case Nil
  then show ?case by auto
next
  case (Cons d ds)
  obtain a e where r: "ToCmdLine d = (a, e)" by (cases "ToCmdLine d")
  show ?case
  proof (cases e)
    case None
    have "range_devices (d # ds) args = (ts, None) \<longleftrightarrow> range_devices ds (args @ a) = (ts, None)"
      using r None by simp
    also have "\<dots> \<longleftrightarrow>
        (\<exists>dts. map ToCmdLine ds = map (\<lambda>t. (t, None)) dts \<and> ts = (args @ a) @ concat dts)"
      by (rule Cons.IH)
    also have "\<dots> \<longleftrightarrow>
        (\<exists>dts. map ToCmdLine (d # ds) = map (\<lambda>t. (t, None)) dts \<and> ts = args @ concat dts)"
    proof
      assume "\<exists>dts. map ToCmdLine ds = map (\<lambda>t. (t, None)) dts \<and> ts = (args @ a) @ concat dts"
      then obtain dts where
        "map ToCmdLine ds = map (\<lambda>t. (t, None)) dts" "ts = (args @ a) @ concat dts"
        by blast
      then have "map ToCmdLine (d # ds) = map (\<lambda>t. (t, None)) (a # dts) \<and>
                 ts = args @ concat (a # dts)"
        using r None by simp
      then show "\<exists>dts. map ToCmdLine (d # ds) = map (\<lambda>t. (t, None)) dts \<and> ts = args @ concat dts"
        by blast
    next
      assume "\<exists>dts. map ToCmdLine (d # ds) = map (\<lambda>t. (t, None)) dts \<and> ts = args @ concat dts"
      then obtain dts where
        h: "map ToCmdLine (d # ds) = map (\<lambda>t. (t, None)) dts" "ts = args @ concat dts"
        by blast
      then obtain x xs where dts: "dts = x # xs" by (cases dts) auto
      with h r have "x = a" "map ToCmdLine ds = map (\<lambda>t. (t, None)) xs" by auto
      with h dts show
        "\<exists>dts. map ToCmdLine ds = map (\<lambda>t. (t, None)) dts \<and> ts = (args @ a) @ concat dts"
        by auto
    qed
    finally show ?thesis .
  next
    case (Some err)
    have "range_devices (d # ds) args \<noteq> (ts, None)"
      using r Some by simp
    moreover have
      "\<not> (\<exists>dts. map ToCmdLine (d # ds) = map (\<lambda>t. (t, None)) dts \<and> ts = args @ concat dts)"
      using r Some by (auto simp: map_eq_Cons_conv)
    ultimately show ?thesis by blast
  qed
qed

subsection \<open>The token vector of a machine\<close>

text \<open>
  Claim C1. A call of \<open>VirtualMachine_ToCmdLine\<close> succeeds with the tokens \<open>ts\<close> exactly
  when the machine has a bootloader that renders to some tokens \<open>bts\<close>, every device
  renders, the i-th one to the i-th list of \<open>dts\<close>, and \<open>ts\<close> is, in this order,
  \<^verbatim>\<open>--cpus\<close> with the decimal count when the count is not 0, \<^verbatim>\<open>--memory\<close> with the
  decimal size when the size is not 0, the bootloader's tokens, and each device's
  tokens in the order of the device list. Nothing is reordered, dropped or merged.
\<close>

theorem VirtualMachine_ToCmdLine_tokens:
  "VirtualMachine_ToCmdLine vm = (ts, None) \<longleftrightarrow>
     (\<exists>b bts dts.
        bootloader vm = Some b \<and> ToCmdLine b = (bts, None) \<and>
        map ToCmdLine (devices vm) = map (\<lambda>t. (t, None)) dts \<and>
        ts = (if vcpus vm \<noteq> 0 then [''--cpus'', FormatUint (unat (vcpus vm))] else []) @
             (if memoryBytes vm \<noteq> 0 then [''--memory'', FormatUint (unat (memoryBytes vm))] else []) @
             bts @ concat dts)"
proof (cases "bootloader vm")
  case None
  then show ?thesis by (simp add: VirtualMachine_ToCmdLine_def)
next
  case (Some b)
  obtain a e where r: "ToCmdLine b = (a, e)" by (cases "ToCmdLine b")
  show ?thesis
  proof (cases e)
    case None
    then show ?thesis
      using Some r by (simp add: VirtualMachine_ToCmdLine_def range_devices_success)
  next
    case (Some err)
    then show ?thesis
      using \<open>bootloader vm = Some b\<close> r by (simp add: VirtualMachine_ToCmdLine_def)
  qed
qed

text \<open>
  A machine with two virtual CPUs, 4096 bytes of memory, an EFI bootloader and the
  devices rng, blk, rng: the two rng devices both appear, around the disk.
\<close>

theorem VirtualMachine_ToCmdLine_tokens_witness:
  "VirtualMachine_ToCmdLine
     \<lparr>vcpus = 2, memoryBytes = 4096, bootloader = Some (efiBootloader ''/v'' True),
      devices = [virtioRNG, virtioBlk ''d.img'', virtioRNG]\<rparr> =
   ([''--cpus'', ''2'', ''--memory'', ''4096'', ''--bootloader'', ''efi,variable-store=/v,create'',
     ''--device'', ''virtio-rng'', ''--device'', ''virtio-blk,path=d.img'',
     ''--device'', ''virtio-rng''], None)"
proof -
  let ?vm = "\<lparr>vcpus = 2, memoryBytes = 4096, bootloader = Some (efiBootloader ''/v'' True),
      devices = [virtioRNG, virtioBlk ''d.img'', virtioRNG]\<rparr>"
  let ?ts = "[''--cpus'', ''2'', ''--memory'', ''4096'', ''--bootloader'',
     ''efi,variable-store=/v,create'', ''--device'', ''virtio-rng'',
     ''--device'', ''virtio-blk,path=d.img'', ''--device'', ''virtio-rng'']"
  have "\<exists>b bts dts.
        bootloader ?vm = Some b \<and> ToCmdLine b = (bts, None) \<and>
        map ToCmdLine (devices ?vm) = map (\<lambda>t. (t, None)) dts \<and>
        ?ts = (if vcpus ?vm \<noteq> 0 then [''--cpus'', FormatUint (unat (vcpus ?vm))] else []) @
             (if memoryBytes ?vm \<noteq> 0 then [''--memory'', FormatUint (unat (memoryBytes ?vm))] else []) @
             bts @ concat dts"
    apply (rule exI [of _ "efiBootloader ''/v'' True"])
    apply (rule exI [of _ "[''--bootloader'', ''efi,variable-store=/v,create'']"])
    apply (rule exI [of _ "[[''--device'', ''virtio-rng''], [''--device'', ''virtio-blk,path=d.img''],
                             [''--device'', ''virtio-rng'']]"])
    apply (simp add: FormatUint.simps digits_def)
    done
  then show ?thesis
    using VirtualMachine_ToCmdLine_tokens [of ?vm ?ts] by blast
qed

subsection \<open>Failure is all or nothing\<close>

text \<open>
  Claim C2. A machine without a bootloader fails with the missing-bootloader error
  whatever its devices are (the device list \<open>ds\<close> is arbitrary, so no device is looked
  at), and every failing call of \<open>VirtualMachine_ToCmdLine\<close>, for whatever reason,
  returns no token.
\<close>

theorem VirtualMachine_ToCmdLine_failure:
  "(bootloader vm = None \<longrightarrow>
      VirtualMachine_ToCmdLine (vm\<lparr>devices := ds\<rparr>) =
        ([], Some (Errorf ''missing bootloader configuration''))) \<and>
   (snd (VirtualMachine_ToCmdLine vm) \<noteq> None \<longrightarrow> fst (VirtualMachine_ToCmdLine vm) = [])"
proof (intro conjI impI)
  assume "bootloader vm = None"
  then show "VirtualMachine_ToCmdLine (vm\<lparr>devices := ds\<rparr>) =
        ([], Some (Errorf ''missing bootloader configuration''))"
    by (simp add: VirtualMachine_ToCmdLine_def)
next
  assume f: "snd (VirtualMachine_ToCmdLine vm) \<noteq> None"
  obtain ts e where r: "VirtualMachine_ToCmdLine vm = (ts, Some e)"
    using f by (cases "VirtualMachine_ToCmdLine vm") auto
  have "ts = []"
  proof (cases "bootloader vm")
    case None
    then show ?thesis using r by (simp add: VirtualMachine_ToCmdLine_def)
  next
    case (Some b)
    obtain a eb where rb: "ToCmdLine b = (a, eb)" by (cases "ToCmdLine b")
    show ?thesis
    proof (cases eb)
      case None
      then show ?thesis
        using Some rb r
        by (auto simp: VirtualMachine_ToCmdLine_def Let_def dest: range_devices_error_nil)
    next
      case (Some err)
      then show ?thesis
        using \<open>bootloader vm = Some b\<close> rb r by (simp add: VirtualMachine_ToCmdLine_def)
    qed
  qed
  then show "fst (VirtualMachine_ToCmdLine vm) = []" using r by simp
qed

text \<open>
  A machine without a bootloader whose first device would fail on its own, and a
  machine whose second device fails after the bootloader and the first device rendered.
\<close>

theorem VirtualMachine_ToCmdLine_failure_witness:
  "bootloader \<lparr>vcpus = 2, memoryBytes = 4096, bootloader = None, devices = []\<rparr> = None \<and>
   VirtualMachine_ToCmdLine
     (\<lparr>vcpus = 2, memoryBytes = 4096, bootloader = None, devices = []\<rparr>
        \<lparr>devices := [virtioBlk [], virtioRNG]\<rparr>) =
     ([], Some (Errorf ''missing bootloader configuration'')) \<and>
   snd (VirtualMachine_ToCmdLine
     \<lparr>vcpus = 2, memoryBytes = 4096, bootloader = Some (efiBootloader ''/v'' False),
      devices = [virtioRNG, virtioBlk []]\<rparr>) =
     Some (Errorf ''virtio-blk needs the path to a disk image'') \<and>
   fst (VirtualMachine_ToCmdLine
     \<lparr>vcpus = 2, memoryBytes = 4096, bootloader = Some (efiBootloader ''/v'' False),
      devices = [virtioRNG, virtioBlk []]\<rparr>) = []"
proof -
  let ?vm1 = "\<lparr>vcpus = 2, memoryBytes = 4096, bootloader = None, devices = []\<rparr>"
  let ?vm2 = "\<lparr>vcpus = 2, memoryBytes = 4096, bootloader = Some (efiBootloader ''/v'' False),
      devices = [virtioRNG, virtioBlk []]\<rparr>"
  have b: "bootloader ?vm1 = None" by simp
  have e: "snd (VirtualMachine_ToCmdLine ?vm2) =
             Some (Errorf ''virtio-blk needs the path to a disk image'')"
    by (simp add: VirtualMachine_ToCmdLine_def)
  then have ne: "snd (VirtualMachine_ToCmdLine ?vm2) \<noteq> None" by simp
  show ?thesis
    using b e ne VirtualMachine_ToCmdLine_failure [of ?vm1 "[virtioBlk [], virtioRNG]"]
      VirtualMachine_ToCmdLine_failure [of ?vm2 "[]"]
    by blast
qed

subsection \<open>The token format of one component\<close>

text \<open>
  Claim C6, as stated, fails at the Linux bootloader: a successful render returns six
  tokens, three flags each with its value, and no \<^verbatim>\<open>--bootloader\<close> flag.
\<close>

theorem linuxBootloader_tokens_counterexample:
  "is_bootloader (linuxBootloader ''/boot/vmlinuz'' ''console=hvc0'' ''/boot/initrd'') \<and>
   ToCmdLine (linuxBootloader ''/boot/vmlinuz'' ''console=hvc0'' ''/boot/initrd'') =
     ([''--kernel'', ''/boot/vmlinuz'', ''--initrd'', ''/boot/initrd'',
       ''--kernel-cmdline'', ''console=hvc0''], None) \<and>
   length (fst (ToCmdLine (linuxBootloader ''/boot/vmlinuz'' ''console=hvc0'' ''/boot/initrd''))) \<noteq> 2"
  by simp

text \<open>
  Claim C6, amended. A successful render of a device (vsock, blk, rng, net, serial, fs)
  returns exactly two tokens, \<^verbatim>\<open>--device\<close> and the comma-joined value of the variant tag
  and the fields in their fixed order; a successful render of the EFI bootloader returns
  exactly \<^verbatim>\<open>--bootloader\<close> and the value joined in the same way from \<^verbatim>\<open>efi\<close> and its
  fields; boolean-style fields are bare words. A successful render of the Linux
  bootloader returns the six tokens
  \<^verbatim>\<open>--kernel P --initrd P --kernel-cmdline S\<close>.
\<close>

theorem ToCmdLine_token_format:
  assumes "ToCmdLine c = (ts, None)"
  shows "(is_device c \<longrightarrow> ts = [''--device'', Join_comma (spec_tag c # spec_fields c)]) \<and>
         (\<forall>p cr. c = efiBootloader p cr \<longrightarrow>
            ts = [''--bootloader'', Join_comma (''efi'' # spec_fields c)]) \<and>
         (\<forall>k cl i. c = linuxBootloader k cl i \<longrightarrow>
            ts = [''--kernel'', k, ''--initrd'', i, ''--kernel-cmdline'', cl])"
  using assms by (cases c) (auto split: if_splits simp: Let_def)

text \<open>A listening vsock device, an EFI bootloader that creates its store, a Linux bootloader.\<close>

theorem ToCmdLine_token_format_witness:
  "ToCmdLine (VirtioVsock 1024 ''/tmp/v.sock'' True) =
     ([''--device'', ''virtio-vsock,port=1024,socketURL=/tmp/v.sock,listen''], None) \<and>
   is_device (VirtioVsock 1024 ''/tmp/v.sock'' True) \<and>
   [''--device'', ''virtio-vsock,port=1024,socketURL=/tmp/v.sock,listen''] =
     [''--device'', Join_comma (spec_tag (VirtioVsock 1024 ''/tmp/v.sock'' True) #
                                 spec_fields (VirtioVsock 1024 ''/tmp/v.sock'' True))] \<and>
   ToCmdLine (efiBootloader ''/v'' True) = ([''--bootloader'', ''efi,variable-store=/v,create''], None) \<and>
   [''--bootloader'', ''efi,variable-store=/v,create''] =
     [''--bootloader'', Join_comma (''efi'' # spec_fields (efiBootloader ''/v'' True))] \<and>
   ToCmdLine (linuxBootloader ''/k'' ''quiet'' ''/i'') =
     ([''--kernel'', ''/k'', ''--initrd'', ''/i'', ''--kernel-cmdline'', ''quiet''], None)"
proof -
  have r1: "ToCmdLine (VirtioVsock 1024 ''/tmp/v.sock'' True) =
     ([''--device'', ''virtio-vsock,port=1024,socketURL=/tmp/v.sock,listen''], None)"
    by (simp add: FormatUint.simps digits_def)
  have r2: "ToCmdLine (efiBootloader ''/v'' True) =
     ([''--bootloader'', ''efi,variable-store=/v,create''], None)"
    by simp
  have r3: "ToCmdLine (linuxBootloader ''/k'' ''quiet'' ''/i'') =
     ([''--kernel'', ''/k'', ''--initrd'', ''/i'', ''--kernel-cmdline'', ''quiet''], None)"
    by simp
  have d: "is_device (VirtioVsock 1024 ''/tmp/v.sock'' True)" by simp
  show ?thesis
    using r1 r2 r3 d ToCmdLine_token_format [OF r1] ToCmdLine_token_format [OF r2]
      ToCmdLine_token_format [OF r3]
    by blast
qed

subsection \<open>The vsock device\<close>

text \<open>
  Claim C7. Rendering a vsock device fails, with the error that names the two required
  fields, exactly when the port is 0 or the socket URL is empty; in particular it fails
  for every device with port 0. Otherwise it returns \<^verbatim>\<open>--device\<close> and
  \<^verbatim>\<open>virtio-vsock,port=<Port>,socketURL=<SocketURL>,<dir>\<close>, the port in decimal and
  \<^verbatim>\<open><dir>\<close> being \<^verbatim>\<open>listen\<close> when \<open>Listen\<close> is true and \<^verbatim>\<open>connect\<close> when it is false.
\<close>

theorem VirtioVsock_ToCmdLine_cases:
  "(snd (ToCmdLine (VirtioVsock p u l)) \<noteq> None) = (p = 0 \<or> u = []) \<and>
   ToCmdLine (VirtioVsock 0 u l) =
     ([], Some (Errorf ''virtio-vsock needs both a port and a socket URL'')) \<and>
   ToCmdLine (VirtioVsock p u l) =
     (if p = 0 \<or> u = []
      then ([], Some (Errorf ''virtio-vsock needs both a port and a socket URL''))
      else ([''--device'',
             ''virtio-vsock,port='' @ FormatUint (unat p) @ '',socketURL='' @ u @ '','' @
               (if l then ''listen'' else ''connect'')], None)) \<and>
   ParseUint (FormatUint (unat p)) = unat p"
  by (simp add: Let_def ParseUint_FormatUint)

subsection \<open>Optional fields\<close>

text \<open>
  Claim C8. An absent optional field leaves no key in the value: a virtio-fs device with
  a shared directory and an empty mount tag renders \<^verbatim>\<open>--device virtio-fs,sharedDir=<dir>\<close>,
  a network device without an address renders \<^verbatim>\<open>virtio-net,nat\<close>, an EFI bootloader that
  does not create its store renders no \<^verbatim>\<open>create\<close>. The exception is time
  synchronisation: with port 0 it renders \<^verbatim>\<open>--timesync\<close> followed by the empty string,
  with port N, not 0, it renders \<^verbatim>\<open>--timesync vsockPort=N\<close>, as for the ports 7, 1234 and
  65535. N is in decimal: the rendering of the port reads back as the port, is a
  non-empty string of the digits 0 to 9, and starts with 0 for the port 0 only.
\<close>

theorem optional_fields_omitted:
  "ToCmdLine (virtioFs dir []) =
     (if dir = [] then ([], Some (Errorf ''virtio-fs needs the path to the directory to share''))
      else ([''--device'', ''virtio-fs,sharedDir='' @ dir], None)) \<and>
   ToCmdLine (virtioFs ''/host/share'' []) =
     ([''--device'', ''virtio-fs,sharedDir=/host/share''], None) \<and>
   ToCmdLine (virtioNet True []) = ([''--device'', ''virtio-net,nat''], None) \<and>
   ToCmdLine (efiBootloader ''/v'' False) = ([''--bootloader'', ''efi,variable-store=/v''], None) \<and>
   ToCmdLine (timeSync 0) = ([''--timesync'', []], None) \<and>
   ToCmdLine (timeSync n) =
     (if n = 0 then ([''--timesync'', []], None)
      else ([''--timesync'', ''vsockPort='' @ FormatUint (unat n)], None)) \<and>
   ToCmdLine (timeSync 1234) = ([''--timesync'', ''vsockPort=1234''], None) \<and>
   ToCmdLine (timeSync 7) = ([''--timesync'', ''vsockPort=7''], None) \<and>
   ToCmdLine (timeSync 65535) = ([''--timesync'', ''vsockPort=65535''], None) \<and>
   ParseUint (FormatUint (unat n)) = unat n \<and>
   FormatUint (unat n) \<noteq> [] \<and>
   set (FormatUint (unat n)) \<subseteq> set ''0123456789'' \<and>
   (hd (FormatUint (unat n)) = CHR ''0'') = (n = 0)"
proof -
  have c: "ToCmdLine (timeSync 1234) = ([''--timesync'', ''vsockPort=1234''], None)"
    "ToCmdLine (timeSync 7) = ([''--timesync'', ''vsockPort=7''], None)"
    "ToCmdLine (timeSync 65535) = ([''--timesync'', ''vsockPort=65535''], None)"
    by (simp_all add: FormatUint.simps digits_def)
  have d: "set (FormatUint (unat n)) \<subseteq> set ''0123456789''"
    using FormatUint_digits [of "unat n"] by (simp add: digits_def)
  have z: "(hd (FormatUint (unat n)) = CHR ''0'') = (n = 0)"
    by (simp add: FormatUint_leading_zero unat_eq_0)
  show ?thesis
    using c d z by (simp add: ParseUint_FormatUint FormatUint_not_Nil)
qed

subsection \<open>The call leaves the machine as it was\<close>

lemma range_devices_frame_fst: "fst (range_devices_frame ds s) = range_devices ds (f_args s)"
proof (induction ds arbitrary: s)
  case Nil
  then show ?case by simp
next
  case (Cons d ds)
  then show ?case by (cases "ToCmdLine d") (auto split: option.splits)
qed

lemma range_devices_frame_vm: "f_vm (snd (range_devices_frame ds s)) = f_vm s"
proof (induction ds arbitrary: s)
  case Nil
  then show ?case by simp
next
  case (Cons d ds)
  then show ?case by (cases "ToCmdLine d") (auto split: option.splits)
qed

text \<open>
  Claim C9. The call returns the receiver unchanged, on success and on failure, with the
  result of \<open>VirtualMachine_ToCmdLine\<close>; so a second call on the machine the first one
  left returns the same result.
\<close>

theorem VirtualMachine_ToCmdLine_frame:
  "VirtualMachine_ToCmdLine_call vm = (VirtualMachine_ToCmdLine vm, vm) \<and>
   fst (VirtualMachine_ToCmdLine_call (snd (VirtualMachine_ToCmdLine_call vm))) =
     fst (VirtualMachine_ToCmdLine_call vm)"
proof -
  have "VirtualMachine_ToCmdLine_call vm = (VirtualMachine_ToCmdLine vm, vm)"
  proof (cases "bootloader vm")
    case None
    then show ?thesis
      by (simp add: VirtualMachine_ToCmdLine_call_def VirtualMachine_ToCmdLine_def Let_def)
  next
    case (Some b)
    obtain a e where r: "ToCmdLine b = (a, e)" by (cases "ToCmdLine b")
    show ?thesis
    proof (cases e)
      case None
      show ?thesis
        using Some r None
          range_devices_frame_fst [of "devices vm"] range_devices_frame_vm [of "devices vm"]
        by (simp add: VirtualMachine_ToCmdLine_call_def VirtualMachine_ToCmdLine_def Let_def
            split_beta)
    next
      case (Some err)
      then show ?thesis
        using \<open>bootloader vm = Some b\<close> r
        by (simp add: VirtualMachine_ToCmdLine_call_def VirtualMachine_ToCmdLine_def Let_def)
    qed
  qed
  then show ?thesis by simp
qed

text \<open>\<^verbatim>\<open>AddDevice\<close>, by contrast, does change the machine.\<close>

lemma AddDevice_devices: "devices (snd (AddDevice dev vm)) = devices vm @ [dev]"
  by (simp add: AddDevice_def)

subsection \<open>Network devices made by the constructor\<close>

lemma colon_groups_length: "colon_groups n t e = Some hw \<Longrightarrow> length hw = n"
proof (induction n arbitrary: t hw)
  case 0
  then show ?case by simp
next
  case (Suc n)
  then show ?case
    by (cases "xtoi2 t e") (auto split: bool.splits if_splits)
qed

lemma dot_groups_length: "dot_groups n t e = Some hw \<Longrightarrow> length hw = 2 * n"
proof (induction n arbitrary: t hw)
  case 0
  then show ?case by simp
next
  case (Suc n)
  then show ?case
    by (cases "xtoi2 (take 2 t) (CHR 0x00)"; cases "xtoi2 (drop 2 t) e")
       (auto split: bool.splits if_splits)
qed

text \<open>An address that \<open>ParseMAC\<close> returns has 6, 8 or 20 bytes.\<close>

lemma ParseMAC_length:
  assumes "ParseMAC s = (hw, None)"
  shows "length hw = 6 \<or> length hw = 8 \<or> length hw = 20"
  using assms
  by (auto simp: ParseMAC_def Let_def split: if_splits option.splits
      dest!: colon_groups_length dot_groups_length)

lemma ParseMAC_nonempty: "ParseMAC s = (hw, None) \<Longrightarrow> hw \<noteq> []"
  using ParseMAC_length [of s hw] by auto

lemma colon_groups_numeral:
  "colon_groups (numeral k) t e =
     (case xtoi2 t e of (b, False) \<Rightarrow> None
      | (b, True) \<Rightarrow> map_option ((#) b) (colon_groups (pred_numeral k) (drop 3 t) e))"
  by (simp add: numeral_eq_Suc [of k])

lemma ParseMAC_example:
  "ParseMAC ''52:54:00:ab:CD:ef'' = ([0x52, 0x54, 0x00, 0xab, 0xcd, 0xef], None)"
  by (simp add: ParseMAC_def xtoi2_def xtoi_def hexval_def big_def Let_def colon_groups_numeral)

text \<open>
  Claim C10. For a parser \<open>P\<close> that never succeeds with an empty address (as
  \<open>ParseMAC\<close> does not): \<open>VirtioNetNew P m\<close> returns an error exactly when \<open>m\<close> is not
  empty and \<open>P\<close> fails on it, and it returns no device exactly then; a device it returns
  has \<open>nat\<close> set, so its rendering never takes the branch of the networking error, and
  succeeds with \<^verbatim>\<open>--device virtio-net,nat\<close> when \<open>m\<close> was empty and with
  \<^verbatim>\<open>--device virtio-net,nat,mac=<ADDR>\<close> otherwise, \<^verbatim>\<open><ADDR>\<close> being the parsed address
  in Go's notation.
\<close>

theorem VirtioNetNew_nat:
  assumes "\<And>s hw. P s = (hw, None) \<Longrightarrow> hw \<noteq> []"
  shows "(snd (VirtioNetNew P m) \<noteq> None) = (m \<noteq> [] \<and> snd (P m) \<noteq> None) \<and>
         (fst (VirtioNetNew P m) = None) = (snd (VirtioNetNew P m) \<noteq> None) \<and>
         (VirtioNetNew P m = (Some d, None) \<longrightarrow>
            nat_net d \<and>
            ToCmdLine d =
              ([''--device'',
                if m = [] then ''virtio-net,nat''
                else ''virtio-net,nat,mac='' @ HardwareAddr_String (fst (P m))], None))"
proof (cases "m = []")
  case True
  then show ?thesis by (auto simp: VirtioNetNew_def)
next
  case False
  obtain hw e where r: "P m = (hw, e)" by (cases "P m")
  show ?thesis
  proof (cases e)
    case None
    with r assms have "hw \<noteq> []" by blast
    then show ?thesis using False r None by (auto simp: VirtioNetNew_def)
  next
    case (Some err)
    then show ?thesis using False r by (auto simp: VirtioNetNew_def)
  qed
qed

text \<open>The constructor run with \<open>ParseMAC\<close> on an address in mixed case.\<close>

theorem VirtioNetNew_nat_witness:
  "VirtioNetNew ParseMAC ''52:54:00:ab:CD:ef'' =
     (Some (virtioNet True [0x52, 0x54, 0x00, 0xab, 0xcd, 0xef]), None) \<and>
   nat_net (virtioNet True [0x52, 0x54, 0x00, 0xab, 0xcd, 0xef]) \<and>
   ToCmdLine (virtioNet True [0x52, 0x54, 0x00, 0xab, 0xcd, 0xef]) =
     ([''--device'', ''virtio-net,nat,mac=52:54:00:ab:cd:ef''], None)"
proof -
  have v: "VirtioNetNew ParseMAC ''52:54:00:ab:CD:ef'' =
     (Some (virtioNet True [0x52, 0x54, 0x00, 0xab, 0xcd, 0xef]), None)"
    by (simp add: VirtioNetNew_def ParseMAC_example)
  have s: "HardwareAddr_String [0x52, 0x54, 0x00, 0xab, 0xcd, 0xef] = ''52:54:00:ab:cd:ef''"
    by (simp add: HardwareAddr_String_def hexDigit_def drop_bit_eq_div)
  show ?thesis
    using VirtioNetNew_nat [of ParseMAC "''52:54:00:ab:CD:ef''"
        "virtioNet True [0x52, 0x54, 0x00, 0xab, 0xcd, 0xef]", OF ParseMAC_nonempty]
      v s ParseMAC_example
    by simp
qed

section \<open>ListValue: results\<close>

subsection \<open>Splitting\<close>

lemma scan_not_Nil: "scan q cur raw \<noteq> []"
  by (induction raw arbitrary: q cur) auto

lemma Join_comma_Cons: "ys \<noteq> [] \<Longrightarrow> Join_comma (x # ys) = x @ '','' @ Join_comma ys"
  by (cases ys) auto

text \<open>The elements, joined again with commas, are the input: the scan cuts at commas only.\<close>

lemma Join_comma_scan: "Join_comma (scan q cur raw) = cur @ raw"
  by (induction raw arbitrary: q cur) (auto simp: Join_comma_Cons scan_not_Nil)

lemma in_quotes_snoc:
  "in_quotes q (s @ [c]) = (if c = CHR 0x22 then \<not> in_quotes q s else in_quotes q s)"
  by (induction s arbitrary: q) auto

lemma outside_comma_snoc:
  "outside_comma q (s @ [c]) =
     (outside_comma q s \<or> (c = CHR '','' \<and> \<not> in_quotes q s))"
  by (induction s arbitrary: q) auto

text \<open>No element keeps a comma outside quotes: every such comma was a separator.\<close>

lemma scan_no_outside_comma:
  "\<not> outside_comma False cur \<Longrightarrow> in_quotes False cur = q \<Longrightarrow>
   \<forall>e \<in> set (scan q cur raw). \<not> outside_comma False e"
proof (induction raw arbitrary: q cur)
  case Nil
  then show ?case by simp
next
  case (Cons c raw)
  show ?case
  proof (cases "c = CHR 0x22")
    case True
    have "\<forall>e \<in> set (scan (\<not> q) (cur @ [c]) raw). \<not> outside_comma False e"
      using Cons.prems True by (intro Cons.IH) (auto simp: outside_comma_snoc in_quotes_snoc)
    then show ?thesis using True by simp
  next
    case False
    show ?thesis
    proof (cases "c = CHR '','' \<and> \<not> q")
      case True
      have "\<forall>e \<in> set (scan False [] raw). \<not> outside_comma False e"
        by (intro Cons.IH) auto
      then show ?thesis using True False Cons.prems by simp
    next
      case nsep: False
      have "\<forall>e \<in> set (scan q (cur @ [c]) raw). \<not> outside_comma False e"
        using Cons.prems False nsep
        by (intro Cons.IH) (auto simp: outside_comma_snoc in_quotes_snoc)
      then show ?thesis using False nsep by auto
    qed
  qed
qed

text \<open>
  Every cut is made outside quotes: each element but the last ends with the quotes
  closed, so a comma inside quotes is never a separator.
\<close>

lemma scan_butlast_closed:
  "in_quotes False cur = q \<Longrightarrow> \<forall>e \<in> set (butlast (scan q cur raw)). \<not> in_quotes False e"
proof (induction raw arbitrary: q cur)
  case Nil
  then show ?case by simp
next
  case (Cons c raw)
  show ?case
  proof (cases "c = CHR 0x22")
    case True
    have "\<forall>e \<in> set (butlast (scan (\<not> q) (cur @ [c]) raw)). \<not> in_quotes False e"
      using Cons.prems True by (intro Cons.IH) (simp add: in_quotes_snoc)
    then show ?thesis using True by simp
  next
    case False
    show ?thesis
    proof (cases "c = CHR '','' \<and> \<not> q")
      case True
      have "\<forall>e \<in> set (butlast (scan False [] raw)). \<not> in_quotes False e"
        by (intro Cons.IH) simp
      then show ?thesis using True False Cons.prems by (simp add: scan_not_Nil)
    next
      case nsep: False
      have "\<forall>e \<in> set (butlast (scan q (cur @ [c]) raw)). \<not> in_quotes False e"
        using Cons.prems False by (intro Cons.IH) (simp add: in_quotes_snoc)
      then show ?thesis using False nsep by auto
    qed
  qed
qed

text \<open>A piece with no comma outside quotes is read into the current element.\<close>

lemma scan_element:
  "\<not> outside_comma q x \<Longrightarrow> scan q cur (x @ rest) = scan (in_quotes q x) (cur @ x) rest"
proof (induction x arbitrary: q cur)
  case Nil
  then show ?case by simp
next
  case (Cons c x)
  then show ?case by (auto split: if_splits)
qed

text \<open>
  The three properties fix the scan: a list of elements that has them is the scan of
  its elements joined with commas.
\<close>

lemma scan_Join_unique:
  assumes "es \<noteq> []"
    and "\<forall>e \<in> set es. \<not> outside_comma False e"
    and "\<forall>e \<in> set (butlast es). \<not> in_quotes False e"
  shows "scan False [] (Join_comma es) = es"
  using assms
proof (induction es rule: Join_comma.induct)
  case 1
  then show ?case by simp
next
  case (2 x)
  then have "scan False [] (x @ []) = scan (in_quotes False x) ([] @ x) []"
    by (intro scan_element) simp
  then show ?case by simp
next
  case (3 x y ys)
  have nx: "\<not> outside_comma False x" and cx: "\<not> in_quotes False x"
    using "3.prems" by auto
  have "scan False [] (x @ ('','' @ Join_comma (y # ys))) =
        scan (in_quotes False x) ([] @ x) ('','' @ Join_comma (y # ys))"
    using nx by (rule scan_element)
  moreover have "scan False [] (Join_comma (y # ys)) = y # ys"
    using "3.prems" by (intro "3.IH") auto
  ultimately show ?case using cx by simp
qed

lemma unwrap_wrapped: "CHR 0x22 \<notin> set b \<Longrightarrow> unwrap (CHR 0x22 # b @ [CHR 0x22]) = b"
  by (simp add: unwrap_def)

lemma unwrap_other:
  assumes "\<forall>b. CHR 0x22 \<notin> set b \<longrightarrow> e \<noteq> CHR 0x22 # b @ [CHR 0x22]"
  shows "unwrap e = e"
proof (cases e)
  case Nil
  then show ?thesis by (simp add: unwrap_def)
next
  case (Cons c rest)
  show ?thesis
  proof (rule ccontr)
    assume "unwrap e \<noteq> e"
    then have h: "c = CHR 0x22" "rest \<noteq> []" "last rest = CHR 0x22"
      "CHR 0x22 \<notin> set (butlast rest)"
      using Cons by (auto simp: unwrap_def split: if_splits)
    then have "e = CHR 0x22 # butlast rest @ [CHR 0x22]"
      using Cons by (metis append_butlast_last_id)
    with h assms show False by blast
  qed
qed

text \<open>
  Claim C3. The empty input has no element. The two inputs of the tests split as the
  tests expect: \<^verbatim>\<open>a="one","two"=b,three\<close> into its three elements unchanged,
  \<^verbatim>\<open>"four,five",six\<close> into \<^verbatim>\<open>four,five\<close> and \<^verbatim>\<open>six\<close>; a quote in the middle of an
  element protects a comma too: \<^verbatim>\<open>x"a,b",c\<close> splits into \<^verbatim>\<open>x"a,b"\<close> and \<^verbatim>\<open>c\<close>. In general a
  non-empty input is scanned and each element unwrapped. The scan cuts at commas only
  (the elements joined with commas are the input), at every comma outside quotes (no
  element has one left) and at no comma inside quotes (every element but the last ends
  with the quotes closed); these three properties fix the scan, since any non-empty
  list of elements that has the last two is the scan of its elements joined with
  commas. Unwrapping removes the two quotes of an element that is one quoted span and
  changes no other element.
\<close>

theorem readAsCSV_splitting:
  "readAsCSV [] = [] \<and>
   readAsCSV (''a='' @ [CHR 0x22] @ ''one'' @ [CHR 0x22] @ '','' @
              [CHR 0x22] @ ''two'' @ [CHR 0x22] @ ''=b,three'') =
     [''a='' @ [CHR 0x22] @ ''one'' @ [CHR 0x22], [CHR 0x22] @ ''two'' @ [CHR 0x22] @ ''=b'',
      ''three''] \<and>
   readAsCSV ([CHR 0x22] @ ''four,five'' @ [CHR 0x22] @ '',six'') = [''four,five'', ''six''] \<and>
   readAsCSV (''x'' @ [CHR 0x22] @ ''a,b'' @ [CHR 0x22] @ '',c'') =
     [''x'' @ [CHR 0x22] @ ''a,b'' @ [CHR 0x22], ''c''] \<and>
   readAsCSV raw = (if raw = [] then [] else map unwrap (scan False [] raw)) \<and>
   Join_comma (scan False [] raw) = raw \<and>
   (\<forall>e \<in> set (scan False [] raw). \<not> outside_comma False e) \<and>
   (\<forall>e \<in> set (butlast (scan False [] raw)). \<not> in_quotes False e) \<and>
   (es \<noteq> [] \<and> (\<forall>e \<in> set es. \<not> outside_comma False e) \<and>
      (\<forall>e \<in> set (butlast es). \<not> in_quotes False e) \<longrightarrow>
    scan False [] (Join_comma es) = es) \<and>
   (CHR 0x22 \<notin> set b \<longrightarrow> unwrap (CHR 0x22 # b @ [CHR 0x22]) = b) \<and>
   ((\<forall>b. CHR 0x22 \<notin> set b \<longrightarrow> e \<noteq> CHR 0x22 # b @ [CHR 0x22]) \<longrightarrow> unwrap e = e)"
proof -
  have 1: "readAsCSV [] = []" by (simp add: readAsCSV_def)
  have 2: "readAsCSV (''a='' @ [CHR 0x22] @ ''one'' @ [CHR 0x22] @ '','' @
              [CHR 0x22] @ ''two'' @ [CHR 0x22] @ ''=b,three'') =
     [''a='' @ [CHR 0x22] @ ''one'' @ [CHR 0x22], [CHR 0x22] @ ''two'' @ [CHR 0x22] @ ''=b'',
      ''three'']"
    by (simp add: readAsCSV_def unwrap_def)
  have 3: "readAsCSV ([CHR 0x22] @ ''four,five'' @ [CHR 0x22] @ '',six'') =
     [''four,five'', ''six'']"
    by (simp add: readAsCSV_def unwrap_def)
  have 4: "readAsCSV raw = (if raw = [] then [] else map unwrap (scan False [] raw))"
    by (simp add: readAsCSV_def)
  have 5: "Join_comma (scan False [] raw) = raw"
    by (simp add: Join_comma_scan)
  have 6: "\<forall>e \<in> set (scan False [] raw). \<not> outside_comma False e"
    by (rule scan_no_outside_comma) simp_all
  have 7: "readAsCSV (''x'' @ [CHR 0x22] @ ''a,b'' @ [CHR 0x22] @ '',c'') =
     [''x'' @ [CHR 0x22] @ ''a,b'' @ [CHR 0x22], ''c'']"
    by (simp add: readAsCSV_def unwrap_def)
  have 8: "\<forall>e \<in> set (butlast (scan False [] raw)). \<not> in_quotes False e"
    by (rule scan_butlast_closed) simp
  have 9: "es \<noteq> [] \<and> (\<forall>e \<in> set es. \<not> outside_comma False e) \<and>
      (\<forall>e \<in> set (butlast es). \<not> in_quotes False e) \<longrightarrow>
    scan False [] (Join_comma es) = es"
    using scan_Join_unique by blast
  have 10: "CHR 0x22 \<notin> set b \<longrightarrow> unwrap (CHR 0x22 # b @ [CHR 0x22]) = b"
    using unwrap_wrapped by blast
  have 11: "(\<forall>b. CHR 0x22 \<notin> set b \<longrightarrow> e \<noteq> CHR 0x22 # b @ [CHR 0x22]) \<longrightarrow> unwrap e = e"
    using unwrap_other by blast
  show ?thesis
    using 1 2 3 4 5 6 7 8 9 10 11 by blast
qed

text \<open>
  The scan of \<^verbatim>\<open>"four,five",six\<close> has the quoted element, which keeps its comma inside
  quotes, ends with the quotes closed and is then unwrapped; the elements \<^verbatim>\<open>x"a,b"\<close> and
  \<^verbatim>\<open>c\<close> are the scan of \<^verbatim>\<open>x"a,b",c\<close>; \<^verbatim>\<open>three\<close> is no quoted span and stays.
\<close>

theorem readAsCSV_splitting_witness:
  "scan False [] ([CHR 0x22] @ ''four,five'' @ [CHR 0x22] @ '',six'') =
     [[CHR 0x22] @ ''four,five'' @ [CHR 0x22], ''six''] \<and>
   \<not> outside_comma False ([CHR 0x22] @ ''four,five'' @ [CHR 0x22]) \<and>
   \<not> outside_comma False ''six'' \<and>
   \<not> in_quotes False ([CHR 0x22] @ ''four,five'' @ [CHR 0x22]) \<and>
   \<not> outside_comma False (''x'' @ [CHR 0x22] @ ''a,b'' @ [CHR 0x22]) \<and>
   \<not> outside_comma False ''c'' \<and>
   \<not> in_quotes False (''x'' @ [CHR 0x22] @ ''a,b'' @ [CHR 0x22]) \<and>
   scan False [] (Join_comma [''x'' @ [CHR 0x22] @ ''a,b'' @ [CHR 0x22], ''c'']) =
     [''x'' @ [CHR 0x22] @ ''a,b'' @ [CHR 0x22], ''c''] \<and>
   CHR 0x22 \<notin> set ''four,five'' \<and>
   unwrap (CHR 0x22 # ''four,five'' @ [CHR 0x22]) = ''four,five'' \<and>
   unwrap ''three'' = ''three''"
proof -
  let ?raw = "[CHR 0x22] @ ''four,five'' @ [CHR 0x22] @ '',six''"
  let ?es = "[''x'' @ [CHR 0x22] @ ''a,b'' @ [CHR 0x22], ''c'']"
  have s: "scan False [] ?raw = [[CHR 0x22] @ ''four,five'' @ [CHR 0x22], ''six'']"
    by simp
  have q: "CHR 0x22 \<notin> set ''four,five''" by simp
  have n: "\<forall>b. CHR 0x22 \<notin> set b \<longrightarrow> ''three'' \<noteq> CHR 0x22 # b @ [CHR 0x22]" by simp
  have h: "?es \<noteq> [] \<and> (\<forall>e \<in> set ?es. \<not> outside_comma False e) \<and>
      (\<forall>e \<in> set (butlast ?es). \<not> in_quotes False e)"
    by simp
  show ?thesis
    using s q n h readAsCSV_splitting [of ?raw ?es "''four,five''" "''three''"]
    by simp
qed

subsection \<open>Replace and Set\<close>

text \<open>
  Claim C4, as stated, fails on a fresh value, as the test \<^verbatim>\<open>TestSSWithDefault\<close> demands:
  after \<^verbatim>\<open>Replace(["default","values"])\<close> the one call \<^verbatim>\<open>Set("one,two,4,3")\<close> leaves
  the four parsed values alone, not the default followed by them.
\<close>

theorem Replace_Set_counterexample:
  "GetSlice (Set ''one,two,4,3'' (Replace [''default'', ''values''] zero_value)) =
     [''one'', ''two'', ''4'', ''3''] \<and>
   GetSlice (Set ''one,two,4,3'' (Replace [''default'', ''values''] zero_value)) \<noteq>
     [''default'', ''values''] @ readAsCSV ''one,two,4,3''"
  by (simp add: GetSlice_def Set_def Replace_def zero_value_def readAsCSV_def unwrap_def)

text \<open>
  Claim C4, amended. \<^verbatim>\<open>Replace(vs)\<close> followed by no \<^verbatim>\<open>Set\<close> leaves exactly \<open>vs\<close>.
  \<^verbatim>\<open>Replace(vs)\<close> followed by one \<^verbatim>\<open>Set(raw)\<close> leaves the parsed elements of \<open>raw\<close> alone
  when no \<^verbatim>\<open>Set\<close> had run on the value before (the first \<^verbatim>\<open>Set\<close> discards the installed
  default), and \<open>vs\<close> followed by them when one had. A \<^verbatim>\<open>Set\<close> that follows a \<^verbatim>\<open>Set\<close>
  appends its batch, so two successive calls leave both batches in call order:
  \<^verbatim>\<open>Set("one,two")\<close> then \<^verbatim>\<open>Set("three")\<close> on a fresh value leave
  \<^verbatim>\<open>["one","two","three"]\<close>.
\<close>

theorem Replace_Set_contents:
  "GetSlice (Replace vs s) = vs \<and>
   GetSlice (Set raw (Replace vs s)) = (if changed s then vs @ readAsCSV raw else readAsCSV raw) \<and>
   GetSlice (Set raw (Replace vs (Set raw0 s))) = vs @ readAsCSV raw \<and>
   GetSlice (Set raw2 (Set raw1 s)) = GetSlice (Set raw1 s) @ readAsCSV raw2 \<and>
   GetSlice (Set raw2 (Set raw1 zero_value)) = readAsCSV raw1 @ readAsCSV raw2 \<and>
   GetSlice (Set ''three'' (Set ''one,two'' zero_value)) = [''one'', ''two'', ''three'']"
  by (simp add: GetSlice_def Set_def Replace_def zero_value_def readAsCSV_def unwrap_def Let_def)

text \<open>The tests that go through \<open>Parse\<close>, on the model.\<close>

lemma TestSSCalledTwice:
  "GetSlice (Parse [''one,two'', ''three''] zero_value) = [''one'', ''two'', ''three'']"
  by (simp add: GetSlice_def Set_def zero_value_def readAsCSV_def unwrap_def)

lemma TestSSWithComma:
  "GetSlice (Parse [[CHR 0x22] @ ''one,two'' @ [CHR 0x22], [CHR 0x22] @ ''three'' @ [CHR 0x22],
                    [CHR 0x22] @ ''four,five'' @ [CHR 0x22] @ '',six''] zero_value) =
     [''one,two'', ''three'', ''four,five'', ''six'']"
  by (simp add: GetSlice_def Set_def zero_value_def readAsCSV_def unwrap_def)

lemma TestSSAsSliceValue:
  "GetSlice (Replace [''three''] (Parse [''one'', ''two''] zero_value)) = [''three'']"
  by (simp add: GetSlice_def Replace_def)

lemma TestEmptySSValue: "GetSlice (Parse [[]] zero_value) = []"
  by (simp add: GetSlice_def Set_def zero_value_def readAsCSV_def)

lemma TestSS:
  "GetSlice (Parse [''one,two,4,3''] zero_value) = [''one'', ''two'', ''4'', ''3'']"
  by (simp add: GetSlice_def Set_def zero_value_def readAsCSV_def unwrap_def)

lemma TestSSWithSquareBrackets:
  "GetSlice (Parse [[CHR 0x22] @ ''[a-z]'' @ [CHR 0x22], [CHR 0x22] @ ''[a-z]+'' @ [CHR 0x22]]
              zero_value) = [''[a-z]'', ''[a-z]+'']"
  by (simp add: GetSlice_def Set_def zero_value_def readAsCSV_def unwrap_def)

subsection \<open>Rendering and parsing again\<close>











end
